theory Spec2Isabelle
  imports Main
begin

section \<open>Recall records\<close>

text \<open>
  The recall object handed to \<^verbatim>\<open>RecallDetailModal\<close> (RecallDetailModal.tsx, the
  \<^verbatim>\<open>recall\<close> prop). Only the fields the step logic reads are kept; the field
  \<^verbatim>\<open>id\<close> is called \<open>recall_id\<close> here.
\<close>

datatype severity = Critical | High | Medium | Low

record recall =
  recall_id :: string
  productName :: string
  brand :: "string option"
  model :: string
  manufacturer :: string
  severity :: severity
  actions :: "string list"

section \<open>Step 2 of the modal flow: RecallDetailStep2.tsx\<close>

text \<open>
  The checklist of \<^verbatim>\<open>RecallDetailStep2\<close> is the literal array \<^verbatim>\<open>steps\<close>
  (commented "Fixed 3-step checklist" in the source); it does not read \<^verbatim>\<open>recall.actions\<close>.
\<close>

record step =
  step_id :: nat
  label :: string
  description :: string
  hasVisualGuide :: bool

definition steps :: "step list" where
  "steps =
    [\<lparr>step_id = 1, label = ''Stop using the product immediately'',
      description = ''For your baby's safety, discontinue use right away'',
      hasVisualGuide = False\<rparr>,
     \<lparr>step_id = 2, label = ''Verify your model number'',
      description = ''Check if your specific model is affected'',
      hasVisualGuide = True\<rparr>,
     \<lparr>step_id = 3, label = ''Contact manufacturer for remedy'',
      description = ''Get your refund, replacement, or repair'',
      hasVisualGuide = False\<rparr>]"

definition totalSteps :: nat where
  "totalSteps = length steps"

text \<open>\<^verbatim>\<open>const allStepsComplete = checkedSteps.length === totalSteps\<close>\<close>

definition allStepsComplete :: "nat list \<Rightarrow> bool" where
  "allStepsComplete checkedSteps = (length checkedSteps = totalSteps)"

text \<open>
  \<^verbatim>\<open>prev.includes(stepId) ? prev.filter(id => id !== stepId) : [...prev, stepId]\<close>,
  the updater that \<^verbatim>\<open>toggleStep\<close> hands to \<^verbatim>\<open>setCheckedSteps\<close>.
\<close>

definition toggleStep :: "nat \<Rightarrow> nat list \<Rightarrow> nat list" where
  "toggleStep stepId prev =
    (if stepId \<in> set prev then filter (\<lambda>i. i \<noteq> stepId) prev else prev @ [stepId])"

text \<open>\<^verbatim>\<open>useState<number[]>([])\<close>: the checklist state of a freshly mounted Step 2.\<close>

definition initialCheckedSteps :: "nat list" where
  "initialCheckedSteps = []"

text \<open>
  One rendered checklist row per element of \<^verbatim>\<open>steps\<close>
  (\<^verbatim>\<open>steps.map((step, index) => ...)\<close>): the id its button passes to
  \<^verbatim>\<open>toggleStep\<close>, its label, and \<^verbatim>\<open>isChecked = checkedSteps.includes(step.id)\<close>.
\<close>

record toggle_row =
  row_id :: nat
  row_label :: string
  isChecked :: bool

definition renderChecklist :: "recall \<Rightarrow> nat list \<Rightarrow> toggle_row list" where
  "renderChecklist r checkedSteps =
    map (\<lambda>st. \<lparr>row_id = step_id st, row_label = label st,
                isChecked = (step_id st \<in> set checkedSteps)\<rparr>) steps"

section \<open>The standalone checklist: ActionGuideScreen.tsx\<close>

record ag_step =
  ag_id :: string
  ag_label :: string
  locked :: bool

definition ag_steps :: "ag_step list" where
  "ag_steps =
    [\<lparr>ag_id = ''step1'', ag_label = ''Stop using the product immediately'', locked = True\<rparr>,
     \<lparr>ag_id = ''step2'', ag_label = ''Check model number'', locked = False\<rparr>,
     \<lparr>ag_id = ''step3'', ag_label = ''Contact manufacturer'', locked = False\<rparr>]"

text \<open>\<^verbatim>\<open>useState<string[]>(['step1'])\<close>, commented "Step 1 checked by default".\<close>

definition ag_initialCheckedSteps :: "string list" where
  "ag_initialCheckedSteps = [''step1'']"

text \<open>
  \<^verbatim>\<open>toggleStep\<close> of ActionGuideScreen: the early return for \<^verbatim>\<open>'step1'\<close>
  ("Step 1 cannot be unchecked"), then the same updater as in Step 2.
\<close>

definition ag_toggleStep :: "string \<Rightarrow> string list \<Rightarrow> string list" where
  "ag_toggleStep stepId prev =
    (if stepId = ''step1'' then prev
     else if stepId \<in> set prev then filter (\<lambda>i. i \<noteq> stepId) prev else prev @ [stepId])"

text \<open>The checklist states the screen can be in: the initial one, and any row clicked.\<close>

inductive ag_reachable :: "string list \<Rightarrow> bool" where
  ag_init: "ag_reachable ag_initialCheckedSteps"
| ag_click: "ag_reachable cs \<Longrightarrow> i \<in> set (map ag_id ag_steps) \<Longrightarrow> ag_reachable (ag_toggleStep i cs)"

section \<open>The flow: SafetyScreen, RecallDetailModal and the mounted step\<close>

datatype direction = Forward | Backward

text \<open>
  What the flow does to the outside: a toast, a call of one of the callback props with
  the arguments written at the call site, a timer started with \<^verbatim>\<open>setTimeout\<close>.
\<close>

datatype callback = OnClose | OnCloseWithSuccess

datatype effect =
    Toast string
  | ParentCall callback "string list"
  | SetTimeout callback nat

text \<open>
  One record for the React state involved: \<open>selectedRecall\<close>, \<open>showSuccessBanner\<close>
  and \<open>successTimestamp\<close> belong to SafetyScreen, \<open>currentStep\<close> and \<open>slideDirection\<close>
  to RecallDetailModal, \<open>checkedSteps\<close> to the mounted RecallDetailStep2.
  \<open>mounted\<close> is the step view that is in the document: the three views are children
  of \<^verbatim>\<open><AnimatePresence mode="wait"></AnimatePresence>\<close>, which shows one of them at a time
  and keeps the one that leaves, with its state and its controls, until its exit
  animation (0.2 s) has ended. \<open>pendingTimeouts\<close> counts the started timers whose
  callback has not run yet and \<open>trace\<close> records the effects in order.
\<close>

record flow =
  selectedRecall :: "recall option"
  showSuccessBanner :: bool
  successTimestamp :: string
  currentStep :: nat
  slideDirection :: direction
  mounted :: "nat option"
  checkedSteps :: "nat list"
  pendingTimeouts :: nat
  trace :: "effect list"

definition initial :: flow where
  "initial = \<lparr>selectedRecall = None, showSuccessBanner = False, successTimestamp = [],
              currentStep = 1, slideDirection = Forward, mounted = None,
              checkedSteps = initialCheckedSteps, pendingTimeouts = 0, trace = []\<rparr>"

text \<open>\<^verbatim>\<open>isOpen={selectedRecall !== null}\<close>\<close>

definition isOpen :: "flow \<Rightarrow> bool" where
  "isOpen s = (selectedRecall s \<noteq> None)"

definition emit :: "effect \<Rightarrow> flow \<Rightarrow> flow" where
  "emit e s = s\<lparr>trace := trace s @ [e]\<rparr>"

text \<open>
  What a render of RecallDetailModal leaves in the document. Without a recall it returns
  \<^verbatim>\<open>null\<close>: every view is unmounted and the checklist of Step 2 is gone. The first
  render with a recall mounts the view of the step that \<open>currentStep\<close> holds at that
  moment (a Step 2 mounted here starts from \<^verbatim>\<open>useState<number[]>([])\<close>). A view that is
  mounted stays: when \<open>currentStep\<close> no longer names it, it is leaving, and the view of
  \<open>currentStep\<close> takes its place only at \<open>exitComplete\<close>.
\<close>

definition render :: "flow \<Rightarrow> flow" where
  "render s =
    (if \<not> isOpen s then s\<lparr>mounted := None, checkedSteps := initialCheckedSteps\<rparr>
     else if mounted s = None
     then s\<lparr>mounted := Some (currentStep s), checkedSteps := initialCheckedSteps\<rparr>
     else s)"

text \<open>
  The end of the exit animation: the leaving view is unmounted and the view of
  \<open>currentStep\<close> is mounted, a Step 2 with a fresh \<^verbatim>\<open>useState<number[]>([])\<close>.
\<close>

definition exitComplete :: "flow \<Rightarrow> flow" where
  "exitComplete s = s\<lparr>mounted := Some (currentStep s), checkedSteps := initialCheckedSteps\<rparr>"

text \<open>
  The effect of RecallDetailModal with dependency list \<^verbatim>\<open>[isOpen]\<close>: it runs after a
  render in which \<^verbatim>\<open>isOpen\<close> differs from its value at the previous render, and
  resets only \<^verbatim>\<open>if (isOpen)\<close>.
\<close>

definition useEffect_isOpen :: "bool \<Rightarrow> flow \<Rightarrow> flow" where
  "useEffect_isOpen prevIsOpen s =
    (if isOpen s \<noteq> prevIsOpen
     then (if isOpen s then s\<lparr>currentStep := 1, slideDirection := Forward\<rparr> else s)
     else s)"

text \<open>
  SafetyScreen's state setter, in the order React runs it: the new value, the render with
  that value, and after the render the effect it may trigger in the modal.
\<close>

definition setSelectedRecall :: "recall option \<Rightarrow> flow \<Rightarrow> flow" where
  "setSelectedRecall r s = useEffect_isOpen (isOpen s) (render (s\<lparr>selectedRecall := r\<rparr>))"

text \<open>
  The two callbacks SafetyScreen passes: \<^verbatim>\<open>onClose={() => setSelectedRecall(null)}\<close>
  and \<^verbatim>\<open>onCloseWithSuccess={handleRecallCompleted}\<close>. The time of day that
  \<^verbatim>\<open>toLocaleTimeString\<close> returns for \<^verbatim>\<open>new Date()\<close> is the parameter
  \<open>formattedTime\<close>.
\<close>

definition onClose :: "flow \<Rightarrow> flow" where
  "onClose s = setSelectedRecall None s"

definition handleRecallCompleted :: "string \<Rightarrow> flow \<Rightarrow> flow" where
  "handleRecallCompleted formattedTime s =
    setSelectedRecall None (s\<lparr>successTimestamp := formattedTime, showSuccessBanner := True\<rparr>)"

subsection \<open>The handlers of RecallDetailModal\<close>

definition handleStep1Confirm :: "bool \<Rightarrow> flow \<Rightarrow> flow" where
  "handleStep1Confirm hasProduct s =
    (if hasProduct then s\<lparr>slideDirection := Forward, currentStep := 2\<rparr>
     else (emit (SetTimeout OnClose 300)
            (emit (Toast ''Thanks, we'll keep monitoring for you.'') s))
          \<lparr>pendingTimeouts := Suc (pendingTimeouts s)\<rparr>)"

definition handleStep2Complete :: "flow \<Rightarrow> flow" where
  "handleStep2Complete s = s\<lparr>slideDirection := Forward, currentStep := 3\<rparr>"

definition handleStep3Done :: "flow \<Rightarrow> flow" where
  "handleStep3Done s = onClose (emit (ParentCall OnClose []) s)"

definition handleBackToStep1 :: "flow \<Rightarrow> flow" where
  "handleBackToStep1 s = s\<lparr>slideDirection := Backward, currentStep := 1\<rparr>"

definition handleBackToStep2 :: "flow \<Rightarrow> flow" where
  "handleBackToStep2 s = s\<lparr>slideDirection := Backward, currentStep := 2\<rparr>"

text \<open>
  The \<^verbatim>\<open>onClose\<close> that the modal passes to RecallDetailStep3:
  \<^verbatim>\<open>if (onCloseWithSuccess) onCloseWithSuccess(); else onClose();\<close>. Both calls have
  an empty argument list.
\<close>

definition step3_onClose :: "(flow \<Rightarrow> flow) option \<Rightarrow> flow \<Rightarrow> flow" where
  "step3_onClose onCloseWithSuccess s =
    (case onCloseWithSuccess of
       Some f \<Rightarrow> f (emit (ParentCall OnCloseWithSuccess []) s)
     | None \<Rightarrow> onClose (emit (ParentCall OnClose []) s))"

subsection \<open>The handlers of RecallDetailStep2\<close>

definition setCheckedSteps :: "(nat list \<Rightarrow> nat list) \<Rightarrow> flow \<Rightarrow> flow" where
  "setCheckedSteps f s = s\<lparr>checkedSteps := f (checkedSteps s)\<rparr>"

definition handleMarkAsDone :: "(flow \<Rightarrow> flow) \<Rightarrow> flow \<Rightarrow> flow" where
  "handleMarkAsDone onComplete s =
    (if allStepsComplete (checkedSteps s) then onComplete s else s)"

definition handleSaveDetails :: "flow \<Rightarrow> flow" where
  "handleSaveDetails s = emit (Toast ''Recall details saved to your Safety tab'') s"

subsection \<open>The handler of RecallDetailStep3\<close>

text \<open>
  \<^verbatim>\<open>handleShare\<close> awaits the platform: \<^verbatim>\<open>navigator.share\<close> when there is one
  (shared, cancelled with an \<^verbatim>\<open>AbortError\<close>, or failed), the clipboard otherwise
  (copied or failed). It only shows toasts; the failures it writes to the console are not
  recorded.
\<close>

datatype share_result =
    NativeShared | NativeAborted | NativeFailed | ClipboardCopied | ClipboardFailed

fun handleShare :: "share_result \<Rightarrow> flow \<Rightarrow> flow" where
  "handleShare NativeShared s = emit (Toast ''Recall shared successfully!'') s"
| "handleShare NativeAborted s = s"
| "handleShare NativeFailed s = s"
| "handleShare ClipboardCopied s = emit (Toast ''Recall details copied to clipboard!'') s"
| "handleShare ClipboardFailed s = emit (Toast ''Unable to share. Please try again.'') s"

subsection \<open>The events the mounted controls offer\<close>

definition step2_mounted :: "flow \<Rightarrow> bool" where
  "step2_mounted s = (mounted s = Some 2)"

text \<open>
  The events, named after the control that raises them. The controls of a step are those
  of the view that is mounted, also while that view is leaving; the handlers they call do
  not look at \<open>currentStep\<close>.
  \<^item> \<open>Open r\<close>: SafetyScreen calls \<^verbatim>\<open>setSelectedRecall(recall)\<close> (the list's Yes
    button, the history card, the simulation panel); the dialog is modal, so this is
    offered while no recall is selected;
  \<^item> \<open>CloseButton\<close>: the floating X button and the dialog's \<^verbatim>\<open>onOpenChange(false)\<close>;
  \<^item> \<open>Confirm b\<close>: the two buttons of Step 1, \<^verbatim>\<open>onConfirm(true)\<close> and
    \<^verbatim>\<open>onConfirm(false)\<close>;
  \<^item> \<open>ToggleStep i\<close>: the header button of the checklist row with id \<open>i\<close>;
  \<^item> \<open>MarkAsDone\<close>: the primary button of Step 2 (its click handler is run here
    whether or not the button is drawn disabled);
  \<^item> \<open>BackPressed\<close>: the back chevron of Step 2 (\<^verbatim>\<open>onBack={handleBackToStep1}\<close>);
  \<^item> \<open>SaveDetails\<close>: the secondary button of Step 2;
  \<^item> \<open>Finish t\<close>: "Back to Safety Center" on Step 3, \<open>t\<close> being the formatted time
    of day at that moment;
  \<^item> \<open>Share r\<close>: "Share this recall" on Step 3, \<open>r\<close> being what the platform answers;
  \<^item> \<open>ExitComplete\<close>: the exit animation of a leaving view ends;
  \<^item> \<open>TimeoutFires\<close>: the callback of a timer started by \<^verbatim>\<open>setTimeout\<close> runs.
  \<open>None\<close> means that nothing raises the event in that state. The expanders, the
  carousel and the contact links of the views change no state of the flow and are left out.
\<close>

datatype event =
    Open recall
  | CloseButton
  | Confirm bool
  | ToggleStep nat
  | MarkAsDone
  | BackPressed
  | SaveDetails
  | Finish string
  | Share share_result
  | ExitComplete
  | TimeoutFires

fun ui_step :: "event \<Rightarrow> flow \<Rightarrow> flow option" where
  "ui_step (Open r) s = (if isOpen s then None else Some (setSelectedRecall (Some r) s))"
| "ui_step CloseButton s =
    (if isOpen s then Some (onClose (emit (ParentCall OnClose []) s)) else None)"
| "ui_step (Confirm hasProduct) s =
    (if mounted s = Some 1 then Some (handleStep1Confirm hasProduct s) else None)"
| "ui_step (ToggleStep i) s =
    (if step2_mounted s \<and> i \<in> set (map step_id steps)
     then Some (setCheckedSteps (toggleStep i) s) else None)"
| "ui_step MarkAsDone s =
    (if step2_mounted s then Some (handleMarkAsDone handleStep2Complete s) else None)"
| "ui_step BackPressed s = (if step2_mounted s then Some (handleBackToStep1 s) else None)"
| "ui_step SaveDetails s = (if step2_mounted s then Some (handleSaveDetails s) else None)"
| "ui_step (Finish t) s =
    (if mounted s = Some 3
     then Some (step3_onClose (Some (handleRecallCompleted t)) s) else None)"
| "ui_step (Share r) s = (if mounted s = Some 3 then Some (handleShare r s) else None)"
| "ui_step ExitComplete s =
    (if mounted s \<noteq> None \<and> mounted s \<noteq> Some (currentStep s)
     then Some (exitComplete s) else None)"
| "ui_step TimeoutFires s =
    (if 0 < pendingTimeouts s
     then Some (onClose (emit (ParentCall OnClose [])
                  (s\<lparr>pendingTimeouts := pendingTimeouts s - 1\<rparr>)))
     else None)"

text \<open>The effects an event adds to the trace.\<close>

definition emitted :: "event \<Rightarrow> flow \<Rightarrow> effect list" where
  "emitted e s =
    (case ui_step e s of None \<Rightarrow> [] | Some s' \<Rightarrow> drop (length (trace s)) (trace s'))"

text \<open>The states of a run: SafetyScreen freshly mounted, then any offered event.\<close>

inductive reachable :: "flow \<Rightarrow> bool" where
  reach_init: "reachable initial"
| reach_step: "reachable s \<Longrightarrow> ui_step e s = Some s' \<Longrightarrow> reachable s'"

fun run :: "event list \<Rightarrow> flow \<Rightarrow> flow option" where
  "run [] s = Some s"
| "run (e # es) s = (case ui_step e s of None \<Rightarrow> None | Some s' \<Rightarrow> run es s')"


section \<open>The standalone Step 1: DoYouHaveThisScreen.tsx\<close>

datatype selected_option = Yes | No | Unsure

datatype screen_call = OnConfirm bool | OnNavigateToActionGuide | ScreenOnClose

text \<open>The optional callback props: \<open>True\<close> when the parent passes one.\<close>

record screen_props =
  has_onConfirm :: bool
  has_onClose :: bool
  has_onNavigateToActionGuide :: bool

record screen =
  selectedOption :: "selected_option option"
  showNoConfirmation :: bool
  calls :: "screen_call list"

definition handleConfirm :: "screen_props \<Rightarrow> bool \<Rightarrow> screen \<Rightarrow> screen" where
  "handleConfirm p hasProduct s =
    (if has_onConfirm p then s\<lparr>calls := calls s @ [OnConfirm hasProduct]\<rparr> else s)"

definition yesButton :: "screen_props \<Rightarrow> screen \<Rightarrow> screen" where
  "yesButton p s =
    (let s1 = handleConfirm p True (s\<lparr>selectedOption := Some Yes\<rparr>)
     in if has_onNavigateToActionGuide p
        then s1\<lparr>calls := calls s1 @ [OnNavigateToActionGuide]\<rparr> else s1)"

definition noButton :: "screen_props \<Rightarrow> screen \<Rightarrow> screen" where
  "noButton p s =
    (handleConfirm p False (s\<lparr>selectedOption := Some No\<rparr>))\<lparr>showNoConfirmation := True\<rparr>"

definition closeNoConfirmation :: "screen_props \<Rightarrow> screen \<Rightarrow> screen" where
  "closeNoConfirmation p s =
    (let s1 = s\<lparr>showNoConfirmation := False\<rparr>
     in if has_onClose p then s1\<lparr>calls := calls s1 @ [ScreenOnClose]\<rparr> else s1)"

section \<open>The transition table of the specification\<close>

text \<open>
  The table of section 4.1 of the specification, row by row, for comparison with
  \<open>ui_step\<close>. \<open>Trig_proceed b\<close> is \<^verbatim>\<open>proceed()\<close> with \<open>b\<close> the value of
  \<^verbatim>\<open>allActionsAcknowledged()\<close>.
\<close>

datatype fstate = Closed | Step1 | Step2 | Step3




text \<open>The state of the table that a state of the code stands for.\<close>

definition flow_state :: "flow \<Rightarrow> fstate option" where
  "flow_state s =
    (if \<not> isOpen s then Some Closed
     else if currentStep s = 1 then Some Step1
     else if currentStep s = 2 then Some Step2
     else if currentStep s = 3 then Some Step3
     else None)"



section \<open>Sample data\<close>

text \<open>The first element of \<^verbatim>\<open>recallItems\<close> in SafetyScreen (recall id '1').\<close>

definition dreamNestCrib :: recall where
  "dreamNestCrib =
    \<lparr>recall_id = ''1'', productName = ''DreamNest Baby Crib'', brand = Some ''DreamNest'',
     model = ''DN-2024-CR'', manufacturer = ''DreamNest Inc.'', severity = Critical,
     actions = [''Stop using the crib immediately'',
                ''Contact DreamNest for a free repair kit'',
                ''Do not attempt to repair yourself'',
                ''Request full refund if repair is not satisfactory'']\<rparr>"

text \<open>
  The flow of that recall with the view of Step 1, of Step 2 (with a given checklist) and
  of Step 3 mounted and current, nothing emitted so far.
\<close>

definition atStep1 :: flow where
  "atStep1 = \<lparr>selectedRecall = Some dreamNestCrib, showSuccessBanner = False,
      successTimestamp = [], currentStep = 1, slideDirection = Forward, mounted = Some 1,
      checkedSteps = [], pendingTimeouts = 0, trace = []\<rparr>"

definition atStep2 :: "nat list \<Rightarrow> flow" where
  "atStep2 cs = \<lparr>selectedRecall = Some dreamNestCrib, showSuccessBanner = False,
      successTimestamp = [], currentStep = 2, slideDirection = Forward, mounted = Some 2,
      checkedSteps = cs, pendingTimeouts = 0, trace = []\<rparr>"

definition atStep3 :: flow where
  "atStep3 = \<lparr>selectedRecall = Some dreamNestCrib, showSuccessBanner = False,
      successTimestamp = [], currentStep = 3, slideDirection = Forward, mounted = Some 3,
      checkedSteps = [], pendingTimeouts = 0, trace = []\<rparr>"

text \<open>
  The same flow while a view is leaving: the view of Step 1 after Yes, the view of Step 2
  (with a given checklist) after a press that set \<open>currentStep\<close> to \<open>n\<close> with direction
  \<open>d\<close>, and the view of Step 3 that the first render of a second session mounts when the
  session before ended on Step 3 with the banner shown.
\<close>

definition leavingStep1 :: flow where
  "leavingStep1 = \<lparr>selectedRecall = Some dreamNestCrib, showSuccessBanner = False,
      successTimestamp = [], currentStep = 2, slideDirection = Forward, mounted = Some 1,
      checkedSteps = [], pendingTimeouts = 0, trace = []\<rparr>"

definition leavingStep2 :: "nat list \<Rightarrow> nat \<Rightarrow> direction \<Rightarrow> flow" where
  "leavingStep2 cs n d = \<lparr>selectedRecall = Some dreamNestCrib, showSuccessBanner = False,
      successTimestamp = [], currentStep = n, slideDirection = d, mounted = Some 2,
      checkedSteps = cs, pendingTimeouts = 0, trace = []\<rparr>"

text \<open>
  The state after "Back to Safety Center" was pressed there at 3:07 PM, and the example
  record of the data binding guide as a second recall.
\<close>

definition afterFinish :: flow where
  "afterFinish = \<lparr>selectedRecall = None, showSuccessBanner = True,
      successTimestamp = ''3:07 PM'', currentStep = 3, slideDirection = Forward,
      mounted = None, checkedSteps = [], pendingTimeouts = 0,
      trace = [ParentCall OnCloseWithSuccess []]\<rparr>"



section \<open>Predicates used in the statements\<close>

text \<open>
  What every event preserves: a step index in range, a duplicate-free checklist of
  rendered ids, a view mounted exactly while the flow is open, and the view of Step 1
  never with \<open>currentStep\<close> 3, the view of Step 3 never with \<open>currentStep\<close> 2.
\<close>

definition flow_inv :: "flow \<Rightarrow> bool" where
  "flow_inv s =
    (currentStep s \<in> {1, 2, 3} \<and> distinct (checkedSteps s) \<and>
     set (checkedSteps s) \<subseteq> {1, 2, 3} \<and>
     (isOpen s \<longleftrightarrow> mounted s \<noteq> None) \<and>
     mounted s \<in> {None, Some 1, Some 2, Some 3} \<and>
     (mounted s = Some 1 \<longrightarrow> currentStep s \<noteq> 3) \<and>
     (mounted s = Some 3 \<longrightarrow> currentStep s \<noteq> 2))"

text \<open>
  An emitted callback call that has exactly two arguments, the first being the id of the
  recall.
\<close>

definition carries_id_and_timestamp :: "recall \<Rightarrow> effect \<Rightarrow> bool" where
  "carries_id_and_timestamp r e =
    (case e of ParentCall cb args \<Rightarrow> length args = 2 \<and> hd args = recall_id r | _ \<Rightarrow> False)"

section \<open>Auxiliary facts\<close>

declare ui_step.simps [simp del]

lemma step_ids: "map step_id steps = [1, 2, 3]"
  by (simp add: steps_def)

lemma totalSteps_3: "totalSteps = 3"
  by (simp add: totalSteps_def steps_def)

lemma toggleStep_distinct: "distinct cs \<Longrightarrow> distinct (toggleStep i cs)"
  by (simp add: toggleStep_def)

lemma toggleStep_set:
  "set (toggleStep i cs) = (if i \<in> set cs then set cs - {i} else insert i (set cs))"
  by (auto simp: toggleStep_def)

lemma toggleStep_twice_set: "set (toggleStep i (toggleStep i cs)) = set cs"
  by (auto simp: toggleStep_set)

lemma ag_toggleStep_twice_set: "set (ag_toggleStep i (ag_toggleStep i cs)) = set cs"
  by (auto simp: ag_toggleStep_def)

lemma ag_locked_funpow: "(ag_toggleStep ''step1'' ^^ n) cs = cs"
  by (induction n) (simp_all add: ag_toggleStep_def)

lemma ag_reachable_step1: "ag_reachable cs \<Longrightarrow> ''step1'' \<in> set cs"
  by (induction rule: ag_reachable.induct) (auto simp: ag_initialCheckedSteps_def ag_toggleStep_def)

lemma distinct_subset_full:
  assumes "distinct cs" "set cs \<subseteq> {1, 2, 3::nat}"
  shows "length cs = 3 \<longleftrightarrow> (\<forall>i\<in>{1, 2, 3}. i \<in> set cs)"
proof
  assume "length cs = 3"
  with assms(1) have "card (set cs) = 3" by (simp add: distinct_card)
  moreover have "card {1, 2, 3::nat} = 3" by simp
  ultimately have "set cs = {1, 2, 3}"
    using assms(2) by (metis card_subset_eq finite.emptyI finite.insertI)
  then show "\<forall>i\<in>{1, 2, 3}. i \<in> set cs" by simp
next
  assume "\<forall>i\<in>{1, 2, 3}. i \<in> set cs"
  with assms(2) have "set cs = {1, 2, 3}" by auto
  with assms(1) have "length cs = card {1, 2, 3::nat}" by (metis distinct_card)
  then show "length cs = 3" by simp
qed

lemma inv_closed:
  assumes "flow_inv s"
  shows "flow_inv (setSelectedRecall None s)"
  using assms
  by (simp add: flow_inv_def setSelectedRecall_def useEffect_isOpen_def render_def isOpen_def
        initialCheckedSteps_def)

lemma inv_opened:
  assumes "flow_inv s" and "\<not> isOpen s"
  shows "flow_inv (setSelectedRecall (Some r) s)"
  using assms
  by (auto simp: flow_inv_def setSelectedRecall_def useEffect_isOpen_def render_def isOpen_def
        initialCheckedSteps_def)

lemma inv_emit: "flow_inv s \<Longrightarrow> flow_inv (emit x s)"
  by (simp add: flow_inv_def emit_def isOpen_def)

lemma inv_trace: "flow_inv s \<Longrightarrow> flow_inv (s\<lparr>trace := t\<rparr>)"
  by (simp add: flow_inv_def isOpen_def)

lemma inv_pending: "flow_inv s \<Longrightarrow> flow_inv (s\<lparr>pendingTimeouts := n\<rparr>)"
  by (simp add: flow_inv_def isOpen_def)

lemma inv_banner:
  "flow_inv s \<Longrightarrow> flow_inv (s\<lparr>successTimestamp := t, showSuccessBanner := b\<rparr>)"
  by (simp add: flow_inv_def isOpen_def)

lemma inv_ui_step:
  assumes "ui_step e s = Some s'" and "flow_inv s"
  shows "flow_inv s'"
proof (cases e)
  case (Open r)
  with assms show ?thesis by (auto simp: ui_step.simps inv_opened split: if_splits)
next
  case CloseButton
  with assms show ?thesis
    by (auto simp: ui_step.simps onClose_def inv_closed inv_emit split: if_splits)
next
  case (Confirm b)
  with assms show ?thesis
    by (auto simp: ui_step.simps handleStep1Confirm_def flow_inv_def emit_def isOpen_def split: if_splits)
next
  case (ToggleStep i)
  with assms show ?thesis
    by (auto simp: ui_step.simps setCheckedSteps_def flow_inv_def toggleStep_set toggleStep_distinct step_ids
          isOpen_def step2_mounted_def split: if_splits)
next
  case MarkAsDone
  with assms show ?thesis
    by (auto simp: ui_step.simps handleMarkAsDone_def handleStep2Complete_def flow_inv_def isOpen_def
          step2_mounted_def split: if_splits)
next
  case BackPressed
  with assms show ?thesis
    by (auto simp: ui_step.simps handleBackToStep1_def flow_inv_def isOpen_def step2_mounted_def
          split: if_splits)
next
  case SaveDetails
  with assms show ?thesis by (auto simp: ui_step.simps handleSaveDetails_def inv_emit split: if_splits)
next
  case (Finish t)
  with assms show ?thesis
    by (auto simp: ui_step.simps step3_onClose_def handleRecallCompleted_def inv_closed inv_emit inv_banner
          split: if_splits)
next
  case (Share r)
  with assms show ?thesis by (cases r) (auto simp: ui_step.simps inv_emit split: if_splits)
next
  case ExitComplete
  with assms show ?thesis
    by (auto simp: ui_step.simps exitComplete_def flow_inv_def isOpen_def initialCheckedSteps_def
          split: if_splits)
next
  case TimeoutFires
  with assms show ?thesis
    by (auto simp: ui_step.simps onClose_def inv_closed inv_emit inv_pending split: if_splits)
qed

lemma reachable_flow_inv: "reachable s \<Longrightarrow> flow_inv s"
proof (induction rule: reachable.induct)
  case reach_init
  show ?case by (simp add: flow_inv_def initial_def initialCheckedSteps_def isOpen_def)
next
  case (reach_step s e s')
  then show ?case using inv_ui_step by blast
qed

lemma reachable_inv:
  "reachable s \<Longrightarrow>
     currentStep s \<in> {1, 2, 3} \<and> distinct (checkedSteps s) \<and> set (checkedSteps s) \<subseteq> {1, 2, 3}"
  using reachable_flow_inv by (simp add: flow_inv_def)


lemma run_reachable: "reachable s \<Longrightarrow> run es s = Some s' \<Longrightarrow> reachable s'"
proof (induction es arbitrary: s)
  case Nil
  then show ?case by simp
next
  case (Cons e es)
  then show ?case by (auto split: option.splits intro: reach_step)
qed

lemmas flow_defs =
  ui_step.simps setSelectedRecall_def useEffect_isOpen_def render_def exitComplete_def onClose_def emit_def
  handleStep1Confirm_def handleMarkAsDone_def handleStep2Complete_def handleBackToStep1_def
  handleSaveDetails_def step3_onClose_def handleRecallCompleted_def setCheckedSteps_def
  isOpen_def step2_mounted_def initialCheckedSteps_def

lemma open_initial: "ui_step (Open dreamNestCrib) initial = Some atStep1"
  by (simp add: flow_defs initial_def atStep1_def)

lemma confirm_atStep1: "ui_step (Confirm True) atStep1 = Some leavingStep1"
  by (simp add: flow_defs atStep1_def leavingStep1_def)

lemma exit_leavingStep1: "ui_step ExitComplete leavingStep1 = Some (atStep2 [])"
  by (simp add: flow_defs leavingStep1_def atStep2_def)

lemma toggle_at_step2:
  "i \<in> {1, 2, 3} \<Longrightarrow> ui_step (ToggleStep i) (atStep2 cs) = Some (atStep2 (toggleStep i cs))"
  by (auto simp add: flow_defs atStep2_def steps_def)

lemma markAsDone_atStep2:
  "allStepsComplete cs \<Longrightarrow> ui_step MarkAsDone (atStep2 cs) = Some (leavingStep2 cs 3 Forward)"
  by (simp add: flow_defs atStep2_def leavingStep2_def)



lemma exit_leavingStep2: "ui_step ExitComplete (leavingStep2 cs 3 Forward) = Some atStep3"
  by (simp add: flow_defs leavingStep2_def atStep3_def)

lemma finish_atStep3: "ui_step (Finish ''3:07 PM'') atStep3 = Some afterFinish"
  by (simp add: flow_defs atStep3_def afterFinish_def)


lemma emitted_finish_atStep3:
  "emitted (Finish ''3:07 PM'') atStep3 = [ParentCall OnCloseWithSuccess []]"
proof -
  have "trace atStep3 = []" and "trace afterFinish = [ParentCall OnCloseWithSuccess []]"
    by (simp_all add: atStep3_def afterFinish_def)
  then show ?thesis by (simp add: emitted_def finish_atStep3)
qed

lemma run_12:
  "run [Open dreamNestCrib, Confirm True, ExitComplete, ToggleStep 1, ToggleStep 2] initial
     = Some (atStep2 [1, 2])"
  by (simp add: open_initial confirm_atStep1 exit_leavingStep1 toggle_at_step2 toggleStep_def)

lemma run_123:
  "run [Open dreamNestCrib, Confirm True, ExitComplete, ToggleStep 1, ToggleStep 2, ToggleStep 3]
     initial = Some (atStep2 [1, 2, 3])"
  by (simp add: open_initial confirm_atStep1 exit_leavingStep1 toggle_at_step2 toggleStep_def)

lemma run_to_step3:
  "run [Open dreamNestCrib, Confirm True, ExitComplete, ToggleStep 1, ToggleStep 2, ToggleStep 3,
        MarkAsDone, ExitComplete] initial = Some atStep3"
  by (simp add: open_initial confirm_atStep1 exit_leavingStep1 toggle_at_step2 toggleStep_def
        markAsDone_atStep2 exit_leavingStep2 allStepsComplete_def totalSteps_3)




lemma reachable_atStep1: "reachable atStep1"
  using reach_step [OF reach_init open_initial] .

lemma reachable_12: "reachable (atStep2 [1, 2])"
  using run_reachable [OF reach_init run_12] .

lemma reachable_123: "reachable (atStep2 [1, 2, 3])"
  using run_reachable [OF reach_init run_123] .

lemma reachable_atStep3: "reachable atStep3"
  using run_reachable [OF reach_init run_to_step3] .

lemma flow_state_cases:
  assumes "currentStep s \<in> {1, 2, 3}"
  shows "flow_state s = (if \<not> isOpen s then Some Closed
                         else if currentStep s = 1 then Some Step1
                         else if currentStep s = 2 then Some Step2 else Some Step3)"
  using assms by (auto simp: flow_state_def)

lemma step2_entry:
  assumes "ui_step e s = Some s'" and "mounted s \<noteq> Some 2" and "mounted s' = Some 2"
  shows "checkedSteps s' = initialCheckedSteps"
proof (cases e)
  case (Open r)
  with assms show ?thesis
    by (auto simp: ui_step.simps setSelectedRecall_def useEffect_isOpen_def render_def isOpen_def
          split: if_splits)
next
  case CloseButton
  with assms show ?thesis
    by (auto simp: ui_step.simps onClose_def emit_def setSelectedRecall_def useEffect_isOpen_def
          render_def isOpen_def split: if_splits)
next
  case (Confirm b)
  with assms show ?thesis
    by (auto simp: ui_step.simps handleStep1Confirm_def emit_def split: if_splits)
next
  case (ToggleStep i)
  with assms show ?thesis by (auto simp: ui_step.simps step2_mounted_def split: if_splits)
next
  case MarkAsDone
  with assms show ?thesis by (auto simp: ui_step.simps step2_mounted_def split: if_splits)
next
  case BackPressed
  with assms show ?thesis by (auto simp: ui_step.simps step2_mounted_def split: if_splits)
next
  case SaveDetails
  with assms show ?thesis by (auto simp: ui_step.simps step2_mounted_def split: if_splits)
next
  case (Finish t)
  with assms show ?thesis
    by (auto simp: ui_step.simps step3_onClose_def handleRecallCompleted_def emit_def
          setSelectedRecall_def useEffect_isOpen_def render_def isOpen_def split: if_splits)
next
  case (Share r)
  with assms show ?thesis by (cases r) (auto simp: ui_step.simps emit_def split: if_splits)
next
  case ExitComplete
  with assms show ?thesis by (auto simp: ui_step.simps exitComplete_def split: if_splits)
next
  case TimeoutFires
  with assms show ?thesis
    by (auto simp: ui_step.simps onClose_def emit_def setSelectedRecall_def useEffect_isOpen_def
          render_def isOpen_def split: if_splits)
qed

section \<open>The claims\<close>

text \<open>
  Claim C1, as stated, fails on the orchestrator. \<^verbatim>\<open>handleStep2Complete\<close> of
  RecallDetailModal has no condition: on Step 2 with two of the three items checked it
  sets \<open>currentStep\<close> to 3.
\<close>

theorem C1_counterexample:
  "currentStep (atStep2 [1, 2]) = 2 \<and> \<not> allStepsComplete (checkedSteps (atStep2 [1, 2])) \<and>
   currentStep (handleStep2Complete (atStep2 [1, 2])) = 3"
  by (simp add: atStep2_def allStepsComplete_def totalSteps_3 handleStep2Complete_def)

text \<open>
  Claim C1, amended. The gate is in the Step 2 component: in every reachable state with
  the view of Step 2 mounted, "Mark as Done" changes nothing while some rendered item is
  not acknowledged (the handler \<^verbatim>\<open>handleMarkAsDone\<close> then returns the state as it is,
  whatever \<^verbatim>\<open>onComplete\<close> it was given), and moves the flow to Step 3 with
  direction forward when every item is acknowledged.
\<close>

theorem C1_markAsDone_gate:
  assumes "reachable s" and "step2_mounted s"
  shows "((\<exists>i\<in>set (map step_id steps). i \<notin> set (checkedSteps s)) \<longrightarrow>
            ui_step MarkAsDone s = Some s \<and> handleMarkAsDone onComplete s = s) \<and>
         ((\<forall>i\<in>set (map step_id steps). i \<in> set (checkedSteps s)) \<longrightarrow>
            (\<exists>s'. ui_step MarkAsDone s = Some s' \<and> isOpen s' \<and> currentStep s' = 3 \<and>
                   slideDirection s' = Forward))"
proof -
  note inv = reachable_flow_inv [OF assms(1)]
  from inv have "distinct (checkedSteps s)" and "set (checkedSteps s) \<subseteq> {1, 2, 3}"
    by (simp_all add: flow_inv_def)
  then have full: "allStepsComplete (checkedSteps s) \<longleftrightarrow> (\<forall>i\<in>{1, 2, 3}. i \<in> set (checkedSteps s))"
    unfolding allStepsComplete_def totalSteps_3 by (rule distinct_subset_full)
  from inv assms(2) have "isOpen s" by (simp add: flow_inv_def step2_mounted_def)
  then show ?thesis
    using assms(2) full
    by (auto simp: step_ids ui_step.simps handleMarkAsDone_def handleStep2Complete_def isOpen_def)
qed

text \<open>
  The gate at two reachable checklists: two of three items checked, and all three.
\<close>

theorem C1_markAsDone_gate_witness:
  "ui_step MarkAsDone (atStep2 [1, 2]) = Some (atStep2 [1, 2]) \<and>
   (\<exists>s'. ui_step MarkAsDone (atStep2 [1, 2, 3]) = Some s' \<and> isOpen s' \<and> currentStep s' = 3 \<and>
          slideDirection s' = Forward)"
proof -
  have m2: "step2_mounted (atStep2 [1, 2])" and m3: "step2_mounted (atStep2 [1, 2, 3])"
    by (simp_all add: step2_mounted_def atStep2_def)
  have "\<exists>i\<in>set (map step_id steps). i \<notin> set (checkedSteps (atStep2 [1, 2]))"
    by (simp add: step_ids atStep2_def)
  moreover have "\<forall>i\<in>set (map step_id steps). i \<in> set (checkedSteps (atStep2 [1, 2, 3]))"
    by (simp add: step_ids atStep2_def)
  ultimately show ?thesis
    using C1_markAsDone_gate [OF reachable_12 m2, of id] C1_markAsDone_gate [OF reachable_123 m3, of id]
    by blast
qed

text \<open>
  Claim C2, as stated, fails on the Step 2 of the modal flow: on entry the checklist of
  RecallDetailStep2 is empty, so its first item (id 1) is not checked, and toggling that
  item changes the state.
\<close>

theorem C2_counterexample:
  "map_option checkedSteps (run [Open dreamNestCrib, Confirm True, ExitComplete] initial) = Some [] \<and>
   step_id (hd steps) \<notin> set initialCheckedSteps \<and>
   toggleStep (step_id (hd steps)) initialCheckedSteps \<noteq> initialCheckedSteps"
  by (simp add: open_initial confirm_atStep1 exit_leavingStep1 atStep2_def steps_def
        initialCheckedSteps_def toggleStep_def)

text \<open>
  Claim C2, amended. In ActionGuideScreen the first item (\<^verbatim>\<open>'step1'\<close>) is checked
  on entry, stays checked in every reachable state, and toggling it returns the state
  unchanged; toggling any other id flips exactly that id. In RecallDetailStep2 the
  checklist is empty on every entry: whatever the event and the state before, a view of
  Step 2 that was not mounted before the event and is mounted after it has no item
  checked; and toggling any id, the first included, flips exactly that id.
\<close>

theorem C2_locked_first_item:
  "ag_id (hd ag_steps) \<in> set ag_initialCheckedSteps \<and>
   ag_toggleStep (ag_id (hd ag_steps)) cs = cs \<and>
   (ag_reachable cs \<longrightarrow> ag_id (hd ag_steps) \<in> set cs) \<and>
   (i \<noteq> ag_id (hd ag_steps) \<longrightarrow>
      (i \<in> set (ag_toggleStep i cs)) = (i \<notin> set cs) \<and>
      (\<forall>j. j \<noteq> i \<longrightarrow> (j \<in> set (ag_toggleStep i cs)) = (j \<in> set cs))) \<and>
   initialCheckedSteps = [] \<and>
   (ui_step e s = Some s' \<and> mounted s \<noteq> Some 2 \<and> mounted s' = Some 2 \<longrightarrow>
      checkedSteps s' = []) \<and>
   (k \<in> set (toggleStep k ds)) = (k \<notin> set ds) \<and>
   (\<forall>j. j \<noteq> k \<longrightarrow> (j \<in> set (toggleStep k ds)) = (j \<in> set ds))"
proof -
  have first: "ag_id (hd ag_steps) = ''step1''" by (simp add: ag_steps_def)
  have entry: "ui_step e s = Some s' \<and> mounted s \<noteq> Some 2 \<and> mounted s' = Some 2 \<longrightarrow>
      checkedSteps s' = []"
    using step2_entry [of e s s'] by (simp add: initialCheckedSteps_def)
  show ?thesis
    unfolding first
    using ag_reachable_step1 [of cs] entry
    by (auto simp: ag_initialCheckedSteps_def ag_toggleStep_def initialCheckedSteps_def
          toggleStep_set)
qed

text \<open>
  The locked item and a free item of ActionGuideScreen; the entry to Step 2 when the
  view of Step 1 has left; the first item of Step 2 on a concrete list.
\<close>

theorem C2_locked_first_item_witness:
  "ag_toggleStep ''step1'' [''step1'', ''step3''] = [''step1'', ''step3''] \<and>
   ''step1'' \<in> set (ag_toggleStep ''step2'' ag_initialCheckedSteps) \<and>
   ''step2'' \<in> set (ag_toggleStep ''step2'' [''step1'', ''step3'']) \<and>
   ''step3'' \<in> set (ag_toggleStep ''step2'' [''step1'', ''step3'']) \<and>
   checkedSteps (atStep2 []) = [] \<and>
   1 \<in> set (toggleStep 1 [2]) \<and> 2 \<in> set (toggleStep 1 [2])"
proof -
  have r: "ag_reachable (ag_toggleStep ''step2'' ag_initialCheckedSteps)"
    by (rule ag_click [OF ag_init]) (simp add: ag_steps_def)
  have f: "ag_id (hd ag_steps) = ''step1''" by (simp add: ag_steps_def)
  have m: "mounted leavingStep1 \<noteq> Some 2" "mounted (atStep2 []) = Some 2"
    by (simp_all add: leavingStep1_def atStep2_def)
  show ?thesis
    using C2_locked_first_item [of "[''step1'', ''step3'']" "''step2''" ExitComplete leavingStep1
        "atStep2 []" 1 "[2]"]
      C2_locked_first_item [of "ag_toggleStep ''step2'' ag_initialCheckedSteps" "''step2''"
        ExitComplete leavingStep1 "atStep2 []" 1 "[2]"] r m exit_leavingStep1
    by (simp add: f)
qed

text \<open>
  Claim C3, as stated, fails: for the recall with id '1', which has four actions, Step 2
  renders three rows.
\<close>

theorem C3_counterexample:
  "length (renderChecklist dreamNestCrib initialCheckedSteps) = 3 \<and>
   length (actions dreamNestCrib) = 4"
  by (simp add: renderChecklist_def steps_def dreamNestCrib_def)

text \<open>
  Claim C3, amended. For every recall and every checklist state Step 2 renders exactly
  \<open>totalSteps\<close> = 3 rows, with the ids 1, 2, 3 and the labels of \<^verbatim>\<open>steps\<close> in that
  order; replacing the record's \<open>actions\<close> by any other list renders the same rows.
\<close>

theorem C3_fixed_checklist:
  "map row_id (renderChecklist r cs) = [1, 2, 3] \<and>
   map row_label (renderChecklist r cs) = map label steps \<and>
   length (renderChecklist r cs) = totalSteps \<and>
   renderChecklist (r\<lparr>actions := a\<rparr>) cs = renderChecklist r cs"
  by (simp add: renderChecklist_def steps_def totalSteps_def)

text \<open>
  Claim C4, as stated, fails: "Back to Safety Center" on Step 3 of the recall with id '1'
  calls \<^verbatim>\<open>onCloseWithSuccess()\<close> with an empty argument list, so the call carries
  neither the recall's id nor a timestamp.
\<close>

theorem C4_counterexample:
  "emitted (Finish ''3:07 PM'') atStep3 = [ParentCall OnCloseWithSuccess []] \<and>
   \<not> carries_id_and_timestamp dreamNestCrib (hd (emitted (Finish ''3:07 PM'') atStep3))"
  by (simp add: emitted_finish_atStep3 carries_id_and_timestamp_def)

text \<open>
  Claim C4, amended. Whenever the view of Step 3 is mounted, its finish button closes the
  flow and calls the parent's success callback exactly once, with no arguments;
  SafetyScreen's \<^verbatim>\<open>handleRecallCompleted\<close> then shows the success banner with the
  time of day it formatted itself. Without a success callback the same button calls
  \<^verbatim>\<open>onClose()\<close> once instead.
\<close>

theorem C4_finish:
  assumes "mounted s = Some 3"
  shows "\<exists>s'. ui_step (Finish t) s = Some s' \<and> flow_state s' = Some Closed \<and>
           emitted (Finish t) s = [ParentCall OnCloseWithSuccess []] \<and>
           showSuccessBanner s' \<and> successTimestamp s' = t \<and>
           trace (step3_onClose None s) = trace s @ [ParentCall OnClose []]"
  using assms
  by (simp add: emitted_def flow_defs flow_state_def)

text \<open>
  The finish on Step 3 of the recall with id '1'.
\<close>

theorem C4_finish_witness:
  "\<exists>s'. ui_step (Finish ''3:07 PM'') atStep3 = Some s' \<and> flow_state s' = Some Closed \<and>
         emitted (Finish ''3:07 PM'') atStep3 = [ParentCall OnCloseWithSuccess []] \<and>
         showSuccessBanner s' \<and> successTimestamp s' = ''3:07 PM''"
proof -
  have "mounted atStep3 = Some 3" by (simp add: atStep3_def)
  from C4_finish [OF this, of "''3:07 PM''"] show ?thesis by blast
qed







text \<open>
  Claim C7, as stated, fails: the close after \<^verbatim>\<open>onConfirm(false)\<close> is deferred by a
  300 ms timer and Step 1 stays mounted until it runs, so after No, Yes pressed before the
  timer's callback puts that session on Step 2.
\<close>

theorem C7_counterexample:
  "map_option flow_state (run [Open dreamNestCrib, Confirm False, Confirm True] initial)
     = Some (Some Step2)"
  by (simp add: flow_defs initial_def flow_state_def)

text \<open>
  Claim C7, amended. With the view of Step 1 mounted, \<^verbatim>\<open>onConfirm(false)\<close> changes
  neither \<open>currentStep\<close> nor the state of the table (on Step 1 the flow stays on
  Step 1), shows the toast "Thanks, we'll keep monitoring for you." once and starts one
  300 ms timer; when that timer's callback runs next, the parent's \<^verbatim>\<open>onClose\<close> is
  called once and the flow is closed, with \<open>currentStep\<close> as it was and the success
  banner untouched, so the success callback is not called. In any state, a pending
  timer's callback closes the flow. In DoYouHaveThisScreen the No button calls the
  parent's \<^verbatim>\<open>onConfirm(false)\<close> once (when that prop is given) and shows the
  confirmation.
\<close>

theorem C7_confirm_false:
  assumes "mounted s = Some 1"
  shows "\<exists>s1 s2.
      ui_step (Confirm False) s = Some s1 \<and> flow_state s1 = flow_state s \<and>
      currentStep s1 = currentStep s \<and>
      (isOpen s \<and> currentStep s = 1 \<longrightarrow> flow_state s1 = Some Step1) \<and>
      emitted (Confirm False) s =
        [Toast ''Thanks, we'll keep monitoring for you.'', SetTimeout OnClose 300] \<and>
      ui_step TimeoutFires s1 = Some s2 \<and> flow_state s2 = Some Closed \<and>
      currentStep s2 = currentStep s \<and> emitted TimeoutFires s1 = [ParentCall OnClose []] \<and>
      showSuccessBanner s2 = showSuccessBanner s \<and>
      (0 < pendingTimeouts x \<longrightarrow>
         (\<exists>y. ui_step TimeoutFires x = Some y \<and> flow_state y = Some Closed)) \<and>
      calls (noButton p sc) = calls sc @ (if has_onConfirm p then [OnConfirm False] else []) \<and>
      showNoConfirmation (noButton p sc) \<and> selectedOption (noButton p sc) = Some No"
  using assms
  by (simp add: emitted_def flow_defs flow_state_def noButton_def handleConfirm_def)

text \<open>
  The No answer on Step 1 of the recall with id '1', and on the standalone screen.
\<close>

theorem C7_confirm_false_witness:
  "\<exists>s1 s2.
      ui_step (Confirm False) atStep1 = Some s1 \<and> flow_state s1 = Some Step1 \<and>
      emitted (Confirm False) atStep1 =
        [Toast ''Thanks, we'll keep monitoring for you.'', SetTimeout OnClose 300] \<and>
      ui_step TimeoutFires s1 = Some s2 \<and> flow_state s2 = Some Closed \<and>
      currentStep s2 = 1 \<and>
      emitted TimeoutFires s1 = [ParentCall OnClose []] \<and>
      (\<exists>y. ui_step TimeoutFires (atStep1\<lparr>pendingTimeouts := 1\<rparr>) = Some y \<and>
           flow_state y = Some Closed) \<and>
      calls (noButton \<lparr>has_onConfirm = True, has_onClose = True,
                        has_onNavigateToActionGuide = True\<rparr>
               \<lparr>selectedOption = None, showNoConfirmation = False, calls = []\<rparr>)
        = [OnConfirm False]"
proof -
  have a: "mounted atStep1 = Some 1" and b: "isOpen atStep1" "currentStep atStep1 = 1"
    by (simp_all add: isOpen_def atStep1_def)
  from C7_confirm_false [OF a,
      where p = "\<lparr>has_onConfirm = True, has_onClose = True, has_onNavigateToActionGuide = True\<rparr>"
        and sc = "\<lparr>selectedOption = None, showNoConfirmation = False, calls = []\<rparr>"
        and x = "atStep1\<lparr>pendingTimeouts := 1\<rparr>"] b
  show ?thesis by auto
qed

text \<open>
  Claim C8, as stated, fails: RecallDetailStep3 is given only \<^verbatim>\<open>recall\<close> and
  \<^verbatim>\<open>onClose\<close>, so on Step 3 no control raises a back event.
\<close>

theorem C8_counterexample:
  "flow_state atStep3 = Some Step3 \<and> ui_step BackPressed atStep3 = None"
  by (simp add: flow_state_def flow_defs atStep3_def)

text \<open>
  Claim C8, amended. The orchestrator's \<^verbatim>\<open>handleBackToStep2\<close> sets
  \<open>currentStep\<close> to 2 and the direction to backward, but it is passed to no component:
  the view of Step 3 offers no back event, and from no reachable state on Step 3 does any
  event lead to Step 2.
\<close>

theorem C8_no_way_back:
  assumes "reachable s" and "isOpen s" and "currentStep s = 3" and "ui_step e s = Some s'"
  shows "flow_state s' \<noteq> Some Step2 \<and>
         (mounted x = Some 3 \<longrightarrow> ui_step BackPressed x = None) \<and>
         currentStep (handleBackToStep2 s) = 2 \<and> slideDirection (handleBackToStep2 s) = Backward"
proof -
  note inv = reachable_flow_inv [OF assms(1)]
  from inv assms(2,3) have m: "mounted s = Some 2 \<or> mounted s = Some 3"
    by (auto simp: flow_inv_def)
  have "flow_state s' \<noteq> Some Step2"
  proof (cases e)
    case (Open r)
    with assms(2,4) show ?thesis by (simp add: ui_step.simps)
  next
    case CloseButton
    with assms(4) show ?thesis
      by (auto simp: ui_step.simps flow_state_def onClose_def emit_def setSelectedRecall_def
            useEffect_isOpen_def render_def isOpen_def split: if_splits)
  next
    case (Confirm b)
    with assms(4) m show ?thesis by (auto simp: ui_step.simps split: if_splits)
  next
    case (ToggleStep i)
    with assms(3,4) show ?thesis
      by (auto simp: ui_step.simps flow_state_def setCheckedSteps_def isOpen_def
            split: if_splits)
  next
    case MarkAsDone
    with assms(3,4) show ?thesis
      by (auto simp: ui_step.simps flow_state_def handleMarkAsDone_def handleStep2Complete_def
            isOpen_def split: if_splits)
  next
    case BackPressed
    with assms(4) show ?thesis
      by (auto simp: ui_step.simps flow_state_def handleBackToStep1_def isOpen_def
            split: if_splits)
  next
    case SaveDetails
    with assms(3,4) show ?thesis
      by (auto simp: ui_step.simps flow_state_def handleSaveDetails_def emit_def isOpen_def
            split: if_splits)
  next
    case (Finish t)
    with assms(4) show ?thesis
      by (auto simp: ui_step.simps flow_state_def step3_onClose_def handleRecallCompleted_def
            emit_def setSelectedRecall_def useEffect_isOpen_def render_def isOpen_def
            split: if_splits)
  next
    case (Share r)
    with assms(3,4) show ?thesis
      by (cases r)
         (auto simp: ui_step.simps flow_state_def emit_def isOpen_def split: if_splits)
  next
    case ExitComplete
    with assms(3,4) show ?thesis
      by (auto simp: ui_step.simps flow_state_def exitComplete_def isOpen_def split: if_splits)
  next
    case TimeoutFires
    with assms(4) show ?thesis
      by (auto simp: ui_step.simps flow_state_def onClose_def emit_def setSelectedRecall_def
            useEffect_isOpen_def render_def isOpen_def split: if_splits)
  qed
  then show ?thesis
    by (simp add: handleBackToStep2_def ui_step.simps step2_mounted_def)
qed

text \<open>
  Step 3 of the recall with id '1', left by its finish button.
\<close>

theorem C8_no_way_back_witness:
  "flow_state afterFinish \<noteq> Some Step2 \<and> ui_step BackPressed atStep3 = None \<and>
   currentStep (handleBackToStep2 atStep3) = 2 \<and>
   slideDirection (handleBackToStep2 atStep3) = Backward"
proof -
  have "isOpen atStep3" and "currentStep atStep3 = 3" and m: "mounted atStep3 = Some 3"
    by (simp_all add: isOpen_def atStep3_def)
  from C8_no_way_back [OF reachable_atStep3 this(1,2) finish_atStep3, of atStep3] m
  show ?thesis by simp
qed

text \<open>
  Claim C9. In every reachable state the checklist of Step 2 has no duplicate id, and
  \<^verbatim>\<open>checkedSteps.length === totalSteps\<close> holds exactly when every id of
  \<^verbatim>\<open>steps\<close> is in it.
\<close>

theorem C9_checklist_distinct:
  assumes "reachable s"
  shows "distinct (checkedSteps s) \<and>
         (allStepsComplete (checkedSteps s) \<longleftrightarrow>
            (\<forall>i\<in>set (map step_id steps). i \<in> set (checkedSteps s)))"
proof -
  from reachable_inv [OF assms]
  have d: "distinct (checkedSteps s)" and sub: "set (checkedSteps s) \<subseteq> {1, 2, 3}" by simp_all
  from distinct_subset_full [OF d sub] d show ?thesis
    by (simp add: allStepsComplete_def totalSteps_3 step_ids)
qed

text \<open>
  The two reachable checklists again.
\<close>

theorem C9_checklist_distinct_witness:
  "distinct (checkedSteps (atStep2 [1, 2])) \<and> \<not> allStepsComplete (checkedSteps (atStep2 [1, 2])) \<and>
   allStepsComplete (checkedSteps (atStep2 [1, 2, 3]))"
  using C9_checklist_distinct [OF reachable_12] C9_checklist_distinct [OF reachable_123]
  by (simp add: atStep2_def step_ids)

text \<open>
  Claim C10. Toggling the same id twice gives back the same set of acknowledged ids, in
  RecallDetailStep2 for every id and every list (the list itself when the id was not
  checked, a list of the same length when there were no duplicates), in
  ActionGuideScreen for every id other than \<^verbatim>\<open>'step1'\<close>; toggling
  \<^verbatim>\<open>'step1'\<close> there any number of times changes nothing.
\<close>

theorem C10_toggle_involution:
  "set (toggleStep i (toggleStep i cs)) = set cs \<and>
   (i \<notin> set cs \<longrightarrow> toggleStep i (toggleStep i cs) = cs) \<and>
   (distinct cs \<longrightarrow> length (toggleStep i (toggleStep i cs)) = length cs) \<and>
   (j \<noteq> ''step1'' \<longrightarrow> set (ag_toggleStep j (ag_toggleStep j ds)) = set ds) \<and>
   (ag_toggleStep ''step1'' ^^ n) ds = ds"
proof -
  have "distinct cs \<Longrightarrow> length (toggleStep i (toggleStep i cs)) = length cs"
  proof -
    assume d: "distinct cs"
    have "distinct (toggleStep i (toggleStep i cs))"
      using d by (simp add: toggleStep_distinct)
    then have "length (toggleStep i (toggleStep i cs)) = card (set cs)"
      by (metis distinct_card toggleStep_twice_set)
    with d show ?thesis by (simp add: distinct_card)
  qed
  moreover have "i \<notin> set cs \<Longrightarrow> toggleStep i (toggleStep i cs) = cs"
    by (auto simp: toggleStep_def filter_id_conv)
  ultimately show ?thesis
    using toggleStep_twice_set ag_toggleStep_twice_set ag_locked_funpow by blast
qed

text \<open>
  Double toggles on concrete lists.
\<close>

theorem C10_toggle_involution_witness:
  "set (toggleStep 2 (toggleStep 2 [1, 2])) = {1, 2} \<and>
   toggleStep 3 (toggleStep 3 [1, 2]) = [1, 2] \<and>
   length (toggleStep 2 (toggleStep 2 [1, 2])) = 2 \<and>
   set (ag_toggleStep ''step2'' (ag_toggleStep ''step2'' [''step1'', ''step2''])) = {''step1'', ''step2''} \<and>
   (ag_toggleStep ''step1'' ^^ 5) [''step1'', ''step2''] = [''step1'', ''step2'']"
  using C10_toggle_involution [of 2 "[1, 2]" "''step2''" "[''step1'', ''step2'']" 5]
    C10_toggle_involution [of 3 "[1, 2]" "''step2''" "[''step1'', ''step2'']" 5]
  by simp

end
